theory Spec2Isabelle
  imports Main
begin

section \<open>Routers: verb, path, middleware chain, controller\<close>

text \<open>
  The three router files register routes on an Express router with
  \<^verbatim>\<open>router.post(path, checkPermission('...'), [validation,] controller)\<close>
  and its siblings \<^verbatim>\<open>get\<close>, \<open>put\<close>, \<open>delete\<close>. A registration is kept as the data it
  is made of: the verb, the path string, the middleware functions in the order they are
  passed, and the controller that ends the chain.
\<close>

datatype verb = GET | POST | PUT | PATCH | DELETE | HEAD | OPTIONS

datatype middleware = checkPermission string | validation string

text \<open>
  The controllers are imported from three modules (\<open>work.controller\<close>,
  \<open>zone.controller\<close>, \<open>group.controller\<close>) that export functions of the same
  names; a controller is named by its module and its export.
\<close>

datatype controller = Work string | Zone string | Group string

record route =
  verb :: verb
  path :: string
  chain :: "middleware list"
  handler :: controller

definition router_post :: "string \<Rightarrow> middleware list \<Rightarrow> controller \<Rightarrow> route" where
  "router_post p ms c = \<lparr>verb = POST, path = p, chain = ms, handler = c\<rparr>"

definition router_get :: "string \<Rightarrow> middleware list \<Rightarrow> controller \<Rightarrow> route" where
  "router_get p ms c = \<lparr>verb = GET, path = p, chain = ms, handler = c\<rparr>"

definition router_put :: "string \<Rightarrow> middleware list \<Rightarrow> controller \<Rightarrow> route" where
  "router_put p ms c = \<lparr>verb = PUT, path = p, chain = ms, handler = c\<rparr>"

definition router_delete :: "string \<Rightarrow> middleware list \<Rightarrow> controller \<Rightarrow> route" where
  "router_delete p ms c = \<lparr>verb = DELETE, path = p, chain = ms, handler = c\<rparr>"

text \<open>\<open>structure/routers/work/work.routes.js\<close>, in registration order.\<close>

definition work_routes :: "route list" where
  "work_routes =
    [router_post ''/create''
       [checkPermission ''can_create_work'', validation ''createWorkValidation''] (Work ''create''),
     router_get ''/get'' [checkPermission ''can_view_zone_admin''] (Work ''findAll''),
     router_get ''/get/:workId'' [checkPermission ''can_view_work''] (Work ''findOne''),
     router_delete ''/:workId'' [checkPermission ''can_delete_zone_admin''] (Work ''deleteOne''),
     router_post ''/assign/:workId'' [checkPermission ''can_update_work'']
       (Work ''assignWorkToSector''),
     router_get ''/getByUserId'' [checkPermission ''can_view_work''] (Work ''getWorkByUserId''),
     router_post ''/pickWork'' [checkPermission ''can_update_work''] (Work ''pickWork''),
     router_post ''/weeklyTask/'' [checkPermission ''can_create_weeklyTask'']
       (Work ''createWeaklyTask''),
     router_get ''/weeklyTask/:weekly_task_id'' [checkPermission ''can_view_weeklyTask'']
       (Work ''getWeeklyTaskById''),
     router_get ''/weeklyTask/:workId'' [checkPermission ''can_view_weeklyTask'']
       (Work ''getWeeklyTask''),
     router_put ''/weeklyTask/:weekly_task_id''
       [checkPermission ''can_update_weeklyTask'', validation ''updateWeaklyTaskValidation'']
       (Work ''updateWeeklyTask'')]"

text \<open>The zone router, in registration order.\<close>

definition zone_routes :: "route list" where
  "zone_routes =
    [router_post ''/create''
       [checkPermission ''can_create_zone_admin'', validation ''createZoneAdminValidation'']
       (Zone ''create''),
     router_get ''/get'' [checkPermission ''can_view_zone_admin''] (Zone ''findAll''),
     router_get ''/get/:zone_user_id'' [checkPermission ''can_view_zone_admin'']
       (Zone ''findOne''),
     router_delete ''/:zone_user_id'' [checkPermission ''can_delete_zone_admin'']
       (Zone ''deleteOne'')]"

text \<open>
  The group router, in registration order. Its fourth registration, a \<open>delete\<close> on
  \<open>/delete/:woreda_id\<close>, is a comment in the source and registers nothing.
\<close>

definition group_routes :: "route list" where
  "group_routes =
    [router_post ''/create''
       [checkPermission ''can_create_group'', validation ''createGroupValidation'']
       (Group ''create''),
     router_get ''/get'' [checkPermission ''can_view_group''] (Group ''findAll''),
     router_get ''/get/:group_id'' [checkPermission ''can_view_sector''] (Group ''findOne'')]"

subsection \<open>Path patterns and matching\<close>

text \<open>
  Express compiles a route path into a pattern over the segments between slashes: a
  segment that starts with a colon is a named parameter and matches any non-empty
  segment, any other segment matches itself, letter case ignored (the routers are created
  with the default options: not case sensitive, not strict, so one trailing slash is
  optional). The pattern is matched against the path as it stands, before any decoding.
\<close>

fun split_on :: "char \<Rightarrow> string \<Rightarrow> string list" where
  "split_on c [] = [[]]"
| "split_on c (x # xs) =
     (if x = c then [] # split_on c xs
      else (case split_on c xs of [] \<Rightarrow> [[x]] | w # ws \<Rightarrow> (x # w) # ws))"

definition drop_leading :: "string list \<Rightarrow> string list" where
  "drop_leading ss = (case ss of [] # rest \<Rightarrow> rest | _ \<Rightarrow> ss)"

definition drop_trailing :: "string list \<Rightarrow> string list" where
  "drop_trailing ss = (if ss \<noteq> [] \<and> last ss = [] then butlast ss else ss)"

definition segments :: "string \<Rightarrow> string list" where
  "segments s = drop_trailing (drop_leading (split_on CHR ''/'' s))"

datatype seg = Lit string | Param string

definition path_pattern :: "string \<Rightarrow> seg list" where
  "path_pattern p =
     map (\<lambda>s. case s of [] \<Rightarrow> Lit s | c # n \<Rightarrow> if c = CHR '':'' then Param n else Lit s)
       (segments p)"

definition lower :: "char \<Rightarrow> char" where
  "lower c =
     (case map_of (zip ''ABCDEFGHIJKLMNOPQRSTUVWXYZ'' ''abcdefghijklmnopqrstuvwxyz'') c of
        Some d \<Rightarrow> d
      | None \<Rightarrow> c)"

fun match_seg :: "seg \<Rightarrow> string \<Rightarrow> bool" where
  "match_seg (Lit l) s = (map lower l = map lower s)"
| "match_seg (Param n) s = (s \<noteq> [])"

fun matches :: "seg list \<Rightarrow> string list \<Rightarrow> bool" where
  "matches [] [] = True"
| "matches (p # ps) (s # ss) = (match_seg p s \<and> matches ps ss)"
| "matches _ _ = False"

subsection \<open>Parameter values\<close>

text \<open>
  The segment a parameter matched is passed through \<open>decodeURIComponent\<close> before it is
  bound to the parameter's name. The function replaces every escape \<open>%XX\<close> by the byte
  it writes and fails (URIError) on a percent sign that is not followed by two
  hexadecimal digits and on escaped bytes that are not the UTF-8 encoding of a code point:
  a continuation byte or a byte from F8 up in leading position, a sequence cut short or
  continued by something else than an escaped continuation byte, an overlong encoding, a
  surrogate, a code point beyond 10FFFF. A string stands for its UTF-8 bytes here, so
  the bytes of a decoded sequence are the decoded character.
\<close>

definition hex_digit :: "char \<Rightarrow> nat option" where
  "hex_digit c =
     map_of
       [(CHR ''0'', 0), (CHR ''1'', 1), (CHR ''2'', 2), (CHR ''3'', 3), (CHR ''4'', 4),
        (CHR ''5'', 5), (CHR ''6'', 6), (CHR ''7'', 7), (CHR ''8'', 8), (CHR ''9'', 9),
        (CHR ''a'', 10), (CHR ''b'', 11), (CHR ''c'', 12), (CHR ''d'', 13), (CHR ''e'', 14),
        (CHR ''f'', 15), (CHR ''A'', 10), (CHR ''B'', 11), (CHR ''C'', 12), (CHR ''D'', 13),
        (CHR ''E'', 14), (CHR ''F'', 15)] c"

text \<open>The number of bytes of the sequence that a leading byte from 80 up announces.\<close>

definition sequence_length :: "nat \<Rightarrow> nat option" where
  "sequence_length b =
     (if 192 \<le> b \<and> b < 224 then Some 2
      else if 224 \<le> b \<and> b < 240 then Some 3
      else if 240 \<le> b \<and> b < 248 then Some 4
      else None)"

fun code_point :: "nat list \<Rightarrow> nat" where
  "code_point [a, b] = (a - 192) * 64 + (b - 128)"
| "code_point [a, b, c] = (a - 224) * 4096 + (b - 128) * 64 + (c - 128)"
| "code_point [a, b, c, d] =
     (a - 240) * 262144 + (b - 128) * 4096 + (c - 128) * 64 + (d - 128)"
| "code_point _ = 0"

definition utf8_valid :: "nat list \<Rightarrow> bool" where
  "utf8_valid bs =
     (let cp = code_point bs in
      if length bs = 2 then 128 \<le> cp
      else if length bs = 3 then 2048 \<le> cp \<and> \<not> (55296 \<le> cp \<and> cp \<le> 57343)
      else if length bs = 4 then 65536 \<le> cp \<and> cp \<le> 1114111
      else False)"

text \<open>
  The decoder reads the string from left to right. \<open>Hex1\<close> and \<open>Hex2\<close> are the
  positions after a percent sign and after its first digit; \<open>bs\<close> holds the bytes of
  a sequence begun and \<open>k\<close> counts the continuation bytes it still needs.
\<close>

datatype scan = Plain | Hex1 | Hex2 nat

fun decode_from :: "scan \<Rightarrow> nat list \<Rightarrow> nat \<Rightarrow> string \<Rightarrow> string option" where
  "decode_from Plain bs k [] = (if k = 0 then Some [] else None)"
| "decode_from Plain bs k (c # cs) =
     (if c = CHR ''%'' then decode_from Hex1 bs k cs
      else if k = 0 then map_option ((#) c) (decode_from Plain [] 0 cs)
      else None)"
| "decode_from Hex1 bs k [] = None"
| "decode_from Hex1 bs k (c # cs) =
     (case hex_digit c of None \<Rightarrow> None | Some h \<Rightarrow> decode_from (Hex2 h) bs k cs)"
| "decode_from (Hex2 h) bs k [] = None"
| "decode_from (Hex2 h) bs k (c # cs) =
     (case hex_digit c of
        None \<Rightarrow> None
      | Some l \<Rightarrow>
          (let b = 16 * h + l in
           if k = 0 then
             (if b < 128 then map_option ((#) (char_of b)) (decode_from Plain [] 0 cs)
              else (case sequence_length b of
                      None \<Rightarrow> None
                    | Some n \<Rightarrow> decode_from Plain [b] (n - 1) cs))
           else if 128 \<le> b \<and> b < 192 then
             (if k = 1 then
                (if utf8_valid (bs @ [b])
                 then map_option ((@) (map char_of (bs @ [b]))) (decode_from Plain [] 0 cs)
                 else None)
              else decode_from Plain (bs @ [b]) (k - 1) cs)
           else None))"

definition decodeURIComponent :: "string \<Rightarrow> string option" where
  "decodeURIComponent s = decode_from Plain [] 0 s"

text \<open>
  The parameters of a matched path, decoded; \<open>None\<close> when one of them does not decode.
\<close>

fun decode_params :: "seg list \<Rightarrow> string list \<Rightarrow> (string \<times> string) list option" where
  "decode_params (Param n # ps) (s # ss) =
     (case decodeURIComponent s of
        None \<Rightarrow> None
      | Some v \<Rightarrow> map_option ((#) (n, v)) (decode_params ps ss))"
| "decode_params (Lit l # ps) (s # ss) = decode_params ps ss"
| "decode_params _ _ = Some []"

text \<open>A route registered for \<open>get\<close> also answers \<open>HEAD\<close> requests.\<close>

definition handles_method :: "verb \<Rightarrow> verb \<Rightarrow> bool" where
  "handles_method v m = (m = v \<or> (m = HEAD \<and> v = GET))"

subsection \<open>Dispatch\<close>

text \<open>
  A request carries its method and the path of its URL (without the query string). What
  the two kinds of middleware decide is read off the request: \<open>granted req p\<close> holds
  when the caller has the permission named \<open>p\<close>, \<open>passes req v\<close> when the body
  passes the validation named \<open>v\<close>.
\<close>

record request =
  http_method :: verb
  pathname :: string
  granted :: "string \<Rightarrow> bool"
  passes :: "string \<Rightarrow> bool"

datatype rejection = Forbidden string | Invalid string | Malformed

datatype outcome =
    Handled controller "(string \<times> string) list"
  | Rejected rejection
  | Unrouted

text \<open>
  Modelled from the spec: \<open>checkPermission\<close> of \<open>middlewares/accessControl\<close> and the
  validation middlewares, which are not among the sources. The permission middleware
  authorizes the caller before the controller runs and rejects the request otherwise; a
  validation failure is answered with status 400. A middleware that rejects answers the
  request itself, so nothing after it in the chain runs.
\<close>

fun run_chain :: "request \<Rightarrow> middleware list \<Rightarrow> rejection option" where
  "run_chain req [] = None"
| "run_chain req (checkPermission p # ms) =
     (if granted req p then run_chain req ms else Some (Forbidden p))"
| "run_chain req (validation v # ms) =
     (if passes req v then run_chain req ms else Some (Invalid v))"

text \<open>
  The router walks its registrations in order. For each it matches the path first and
  decodes the parameters; a parameter that does not decode is an error (status 400,
  \<open>Malformed\<close>) that no later registration takes up and that is answered before any
  middleware runs. A registration whose path matches and whose verb is the request's gets
  the request. Its chain answers it: the controllers, which are not among the sources, are
  by the spec thin functions that call the ORM and return the JSON response, and none is
  taken to pass control on. So registrations after the first match are not consulted. The
  outcome records the controller reached and the decoded values bound to the parameter
  names.
\<close>

fun router_handle :: "route list \<Rightarrow> request \<Rightarrow> string list \<Rightarrow> outcome" where
  "router_handle [] req segs = Unrouted"
| "router_handle (r # rs) req segs =
     (if matches (path_pattern (path r)) segs
      then (case decode_params (path_pattern (path r)) segs of
              None \<Rightarrow> Rejected Malformed
            | Some ps \<Rightarrow>
                if handles_method (verb r) (http_method req)
                then (case run_chain req (chain r) of
                        Some why \<Rightarrow> Rejected why
                      | None \<Rightarrow> Handled (handler r) ps)
                else router_handle rs req segs)
      else router_handle rs req segs)"

text \<open>
  Modelled from the spec: the mount points of the three routers. The file that mounts
  them is not among the sources; the spec's resource table (and the API comments of the
  work and zone routers) place them under \<open>/structure/work\<close>, \<open>/structure/zone\<close> and
  \<open>/structure/group\<close>.
\<close>

definition mounts :: "(string \<times> route list) list" where
  "mounts =
    [(''/structure/work'', work_routes),
     (''/structure/zone'', zone_routes),
     (''/structure/group'', group_routes)]"

text \<open>
  A mounted router sees the path with the mount point removed (and the slash that
  follows it); when none of its routes matches, the next mount is tried. \<open>Unrouted\<close>
  says that no registration took the request.
\<close>

fun app_use :: "(string \<times> route list) list \<Rightarrow> request \<Rightarrow> outcome" where
  "app_use [] req = Unrouted"
| "app_use ((prefix, routes) # ms) req =
     (let pre = path_pattern prefix; segs = segments (pathname req) in
      if length pre \<le> length segs \<and> matches pre (take (length pre) segs)
      then (case router_handle routes req (drop_leading (drop (length pre) segs)) of
              Unrouted \<Rightarrow> app_use ms req
            | out \<Rightarrow> out)
      else app_use ms req)"

definition app :: "request \<Rightarrow> outcome" where
  "app req = app_use mounts req"

text \<open>Every registration of the application, with its full path.\<close>

definition mounted :: "(string \<times> route list) list \<Rightarrow> route list" where
  "mounted ms = concat (map (\<lambda>(prefix, routes). map (\<lambda>r. r\<lparr>path := prefix @ path r\<rparr>) routes) ms)"

definition permissions :: "route \<Rightarrow> string list" where
  "permissions r = concat (map (\<lambda>m. case m of checkPermission p \<Rightarrow> [p] | validation v \<Rightarrow> []) (chain r))"

text \<open>
  The resource table of the spec (verb, path, required permission), row by row as the
  spec lists it; the registrations above are compared with it.
\<close>

definition spec_resource_table :: "(verb \<times> string \<times> string) list" where
  "spec_resource_table =
    [(POST, ''/structure/work/create'', ''can_create_work''),
     (GET, ''/structure/work/get'', ''can_view_zone_admin''),
     (GET, ''/structure/work/get/:workId'', ''can_view_work''),
     (DELETE, ''/structure/work/:workId'', ''can_delete_zone_admin''),
     (POST, ''/structure/work/assign/:workId'', ''can_update_work''),
     (GET, ''/structure/work/getByUserId'', ''can_view_work''),
     (POST, ''/structure/work/pickWork'', ''can_update_work''),
     (POST, ''/structure/work/weeklyTask/'', ''can_create_weeklyTask''),
     (GET, ''/structure/work/weeklyTask/:weekly_task_id'', ''can_view_weeklyTask''),
     (GET, ''/structure/work/weeklyTask/:workId'', ''can_view_weeklyTask''),
     (PUT, ''/structure/work/weeklyTask/:weekly_task_id'', ''can_update_weeklyTask''),
     (POST, ''/structure/zone/create'', ''can_create_zone_admin''),
     (GET, ''/structure/zone/get'', ''can_view_zone_admin''),
     (GET, ''/structure/zone/get/:zone_user_id'', ''can_view_zone_admin''),
     (DELETE, ''/structure/zone/:zone_user_id'', ''can_delete_zone_admin''),
     (POST, ''/structure/group/create'', ''can_create_group''),
     (GET, ''/structure/group/get'', ''can_view_group''),
     (GET, ''/structure/group/get/:group_id'', ''can_view_sector'')]"

section \<open>The WeeklyTask model\<close>

text \<open>
  \<open>structure/models/weeklyTask.js\<close> defines the model with \<open>sequelize.define\<close>: a name
  and an object that gives each attribute its data type, whether it may be null, its
  default value and whether it is the primary key. The definition is kept as that data
  and interpreted below. An attribute that writes no \<open>defaultValue\<close> has none, and one
  that writes no \<open>primaryKey\<close> is not part of the key.
\<close>

datatype data_type = UUID | STRING | INTEGER | DATE

datatype val = VNull | VStr string | VInt int | VDate int

datatype default_value = UUIDV4 | NOW | Const val

record attribute =
  type :: data_type
  allowNull :: bool
  defaultValue :: "default_value option"
  primaryKey :: bool

type_synonym model = "(string \<times> attribute) list"

definition WeeklyTask :: model where
  "WeeklyTask =
    [(''weekly_task_id'',
        \<lparr>type = UUID, allowNull = False, defaultValue = Some UUIDV4, primaryKey = True\<rparr>),
     (''description'',
        \<lparr>type = STRING, allowNull = False, defaultValue = None, primaryKey = False\<rparr>),
     (''status'',
        \<lparr>type = STRING, allowNull = False,
         defaultValue = Some (Const (VStr ''unassigned'')), primaryKey = False\<rparr>),
     (''workId'',
        \<lparr>type = UUID, allowNull = False, defaultValue = None, primaryKey = False\<rparr>),
     (''weekNumber'',
        \<lparr>type = INTEGER, allowNull = False, defaultValue = None, primaryKey = False\<rparr>),
     (''sectorId'',
        \<lparr>type = INTEGER, allowNull = False, defaultValue = None, primaryKey = False\<rparr>),
     (''pickedBy'',
        \<lparr>type = UUID, allowNull = True, defaultValue = None, primaryKey = False\<rparr>),
     (''createdAt'',
        \<lparr>type = DATE, allowNull = False, defaultValue = Some NOW, primaryKey = False\<rparr>),
     (''updatedAt'',
        \<lparr>type = DATE, allowNull = False, defaultValue = Some NOW, primaryKey = False\<rparr>)]"

subsection \<open>Building an instance\<close>

text \<open>
  The object handed to \<open>create\<close> may leave attributes undefined (\<open>None\<close> here); an
  explicit null is a value. A date is \<open>VDate\<close> of its timestamp, whether the object
  holds it as a Date or as a string that denotes one; \<open>VStr\<close> is for the other strings. A stored row has a value, possibly null, for every attribute.
  Building an instance fills each undefined attribute from its default: \<open>UUIDV4\<close> and
  \<open>NOW\<close> are generators, and what they yield for the instance being built is an input of
  the model.
\<close>

type_synonym attrs = "string \<rightharpoonup> val"

type_synonym row = "string \<Rightarrow> val"

record generated =
  uuidv4 :: string
  now :: int

fun default_of :: "generated \<Rightarrow> default_value \<Rightarrow> val" where
  "default_of g UUIDV4 = VStr (uuidv4 g)"
| "default_of g NOW = VDate (now g)"
| "default_of g (Const v) = v"

definition build :: "model \<Rightarrow> generated \<Rightarrow> attrs \<Rightarrow> row" where
  "build m g given = (\<lambda>n.
     case map_of m n of
       None \<Rightarrow> VNull
     | Some a \<Rightarrow>
         (case given n of
            Some v \<Rightarrow> v
          | None \<Rightarrow> (case defaultValue a of None \<Rightarrow> VNull | Some d \<Rightarrow> default_of g d)))"

subsection \<open>What a table of the model holds\<close>

text \<open>
  The values a column of each data type holds: a UUID column a string of 8-4-4-4-12
  hexadecimal digits, a STRING column (VARCHAR(255)) a string of at most 255 characters,
  an INTEGER column a 32-bit signed integer, a DATE column a timestamp. Null is held
  only where \<open>allowNull\<close> says so.
\<close>

definition is_hex :: "char \<Rightarrow> bool" where
  "is_hex c = (c \<in> set ''0123456789abcdefABCDEF'')"

definition is_uuid :: "string \<Rightarrow> bool" where
  "is_uuid s =
     (case split_on CHR ''-'' s of
        [a, b, c, d, e] \<Rightarrow>
          length a = 8 \<and> length b = 4 \<and> length c = 4 \<and> length d = 4 \<and> length e = 12 \<and>
          list_all is_hex (a @ b @ c @ d @ e)
      | _ \<Rightarrow> False)"

fun holds :: "data_type \<Rightarrow> val \<Rightarrow> bool" where
  "holds UUID (VStr s) = is_uuid s"
| "holds STRING (VStr s) = (length s \<le> 255)"
| "holds INTEGER (VInt i) = (- 2147483648 \<le> i \<and> i \<le> 2147483647)"
| "holds DATE (VDate t) = True"
| "holds _ _ = False"

datatype db_error = NotNullViolation string | TypeViolation string | UniqueViolation

fun violation :: "model \<Rightarrow> row \<Rightarrow> db_error option" where
  "violation [] r = None"
| "violation ((n, a) # m) r =
     (if r n = VNull then (if allowNull a then violation m r else Some (NotNullViolation n))
      else if holds (type a) (r n) then violation m r
      else Some (TypeViolation n))"

definition conforms :: "model \<Rightarrow> row \<Rightarrow> bool" where
  "conforms m r = (violation m r = None)"

definition pk :: "model \<Rightarrow> row \<Rightarrow> val list" where
  "pk m r = map r (map fst (filter (\<lambda>(n, a). primaryKey a) m))"

definition valid_table :: "model \<Rightarrow> row list \<Rightarrow> bool" where
  "valid_table m t = (list_all (conforms m) t \<and> distinct (map (pk m) t))"


definition nullable :: "model \<Rightarrow> string list" where
  "nullable m = map fst (filter (\<lambda>(n, a). allowNull a) m)"

subsection \<open>Creating a row\<close>




text \<open>
  A value that is not of its column's type is converted where its written form allows:
  a string of decimal digits, with or without a sign, given for an INTEGER column is
  stored as the number it writes (so \<open>weekNumber: "4"\<close> is stored as 4); an integer
  given for a STRING column is stored as its decimal string; a number given for a DATE
  attribute is taken as a timestamp. Any other value that its column does not hold is
  refused by the insertion, as a database that enforces the column types does.
\<close>

definition digit :: "char \<Rightarrow> int option" where
  "digit c =
     map_of
       [(CHR ''0'', 0), (CHR ''1'', 1), (CHR ''2'', 2), (CHR ''3'', 3), (CHR ''4'', 4),
        (CHR ''5'', 5), (CHR ''6'', 6), (CHR ''7'', 7), (CHR ''8'', 8), (CHR ''9'', 9)] c"

fun digits_value :: "int \<Rightarrow> string \<Rightarrow> int option" where
  "digits_value acc [] = Some acc"
| "digits_value acc (c # cs) =
     (case digit c of None \<Rightarrow> None | Some d \<Rightarrow> digits_value (10 * acc + d) cs)"

definition int_of_string :: "string \<Rightarrow> int option" where
  "int_of_string s =
     (case s of
        [] \<Rightarrow> None
      | c # cs \<Rightarrow>
          if c = CHR ''-'' then
            (if cs = [] then None else map_option uminus (digits_value 0 cs))
          else if c = CHR ''+'' then (if cs = [] then None else digits_value 0 cs)
          else digits_value 0 s)"

text \<open>The decimal digits of a number, the last one first into the accumulator.\<close>

function decimal :: "int \<Rightarrow> string \<Rightarrow> string" where
  "decimal n acc =
     (let acc' = (''0123456789'' ! nat (n mod 10)) # acc
      in if n < 10 then acc' else decimal (n div 10) acc')"
  by pat_completeness auto
termination
  by (relation "measure (\<lambda>(n, acc). nat n)") auto

definition written :: "int \<Rightarrow> string" where
  "written i = (if 0 \<le> i then decimal i [] else CHR ''-'' # decimal (- i) [])"

fun coerce :: "data_type \<Rightarrow> val \<Rightarrow> val" where
  "coerce INTEGER (VStr s) = (case int_of_string s of Some i \<Rightarrow> VInt i | None \<Rightarrow> VStr s)"
| "coerce STRING (VInt i) = VStr (written i)"
| "coerce DATE (VInt n) = VDate n"
| "coerce ty v = v"





section \<open>Controllers\<close>

text \<open>
  Modelled from the spec: \<open>createWeaklyTask\<close> of \<open>controllers/work/work.controller\<close>,
  which is not among the sources (the router imports it under this name; the spec calls
  it createWeeklyTask). For each sector id it creates a WeeklyTask row scoped to that
  sector and week; status and pickedBy are not given, so the model's defaults decide
  them. The description every row needs is a parameter: the spec does not say where the
  controller takes it from. \<open>gen i\<close> is what the generators yield for the \<open>i\<close>-th row.
  A row the table refuses ends the call with that error.
\<close>

definition weekly_task_attrs :: "val \<Rightarrow> val \<Rightarrow> val \<Rightarrow> val \<Rightarrow> attrs" where
  "weekly_task_attrs d w k s =
     [''description'' \<mapsto> d, ''workId'' \<mapsto> w, ''weekNumber'' \<mapsto> k, ''sectorId'' \<mapsto> s]"


text \<open>
  Modelled from the spec: \<open>pickWork\<close> of the same controller module. It is the
  conditional update the spec prescribes, "update WeeklyTask set pickedBy=X, status=Y
  where id=Z and pickedBy is null", followed by a check of the affected-row count: no
  affected row is a conflict, and the table is left as it was. \<open>z\<close> is the id of the
  task and \<open>u\<close> the id of the requesting user. Of the status \<open>Y\<close> the spec says that
  it is no longer \<open>unassigned\<close> once the task is claimed, and gives it no name; the model
  writes \<open>assigned\<close>.
\<close>

datatype pick_result = Picked | Conflict

definition picked_status :: val where
  "picked_status = VStr ''assigned''"

definition unclaimed :: "string \<Rightarrow> row \<Rightarrow> bool" where
  "unclaimed z r = (r ''weekly_task_id'' = VStr z \<and> r ''pickedBy'' = VNull)"

definition pickWork :: "row list \<Rightarrow> string \<Rightarrow> string \<Rightarrow> row list \<times> pick_result" where
  "pickWork t z u =
     (if filter (unclaimed z) t = [] then (t, Conflict)
      else (map (\<lambda>r. if unclaimed z r
                     then r(''pickedBy'' := VStr u, ''status'' := picked_status)
                     else r) t,
            Picked))"

text \<open>
  Modelled from the spec: \<open>findOne\<close> and \<open>deleteOne\<close> of the same controller module,
  over the stored Work records (the Work model is not among the sources either, so the
  record type is left open). \<open>findOne\<close> is a read-only lookup; \<open>deleteOne\<close> removes the
  record; both answer NotFound (404) when the id references no Work.
\<close>

datatype 'a response = Ok 'a | NotFound

fun status_code :: "'a response \<Rightarrow> nat" where
  "status_code (Ok a) = 200"
| "status_code NotFound = 404"

definition findOne :: "(string \<rightharpoonup> 'w) \<Rightarrow> string \<Rightarrow> (string \<rightharpoonup> 'w) \<times> 'w response" where
  "findOne works workId =
     (case works workId of None \<Rightarrow> (works, NotFound) | Some w \<Rightarrow> (works, Ok w))"

definition deleteOne :: "(string \<rightharpoonup> 'w) \<Rightarrow> string \<Rightarrow> (string \<rightharpoonup> 'w) \<times> 'w response" where
  "deleteOne works workId =
     (case works workId of
        None \<Rightarrow> (works, NotFound)
      | Some w \<Rightarrow> (works(workId := None), Ok w))"

subsection \<open>Sample data\<close>

text \<open>
  A request of a caller who holds every permission, with a body that passes every
  validation.
\<close>

definition sample_request :: "verb \<Rightarrow> string \<Rightarrow> request" where
  "sample_request m p =
     \<lparr>http_method = m, pathname = p, granted = (\<lambda>p. True), passes = (\<lambda>v. True)\<rparr>"

text \<open>A generator that yields two well-formed identifiers, and the row of a first call.\<close>

definition sample_generated :: "nat \<Rightarrow> generated" where
  "sample_generated i =
     (if i = 0 then \<lparr>uuidv4 = ''a5166002-89bb-4a3c-a34a-39b44d33c212'', now = 1719792000\<rparr>
      else \<lparr>uuidv4 = ''0b9f6c1e-7d2a-4e58-9c3b-5f1a2d4e6b70'', now = 1719792001\<rparr>)"

definition sample_attrs :: attrs where
  "sample_attrs =
     weekly_task_attrs (VStr ''Paint fence'') (VStr ''5725a78a-98cf-4da8-96ab-cc72a5b5af0a'')
       (VInt 4) (VInt 1)"

definition sample_row :: row where
  "sample_row = build WeeklyTask (sample_generated 0) sample_attrs"


text \<open>
  A table of two unclaimed tasks, and the same table after the user
  \<open>7c9e6679-7425-40de-944b-e07fc1f90ae7\<close> has picked the first.
\<close>

definition sample_other_row :: row where
  "sample_other_row =
     sample_row(''weekly_task_id'' := VStr ''0b9f6c1e-7d2a-4e58-9c3b-5f1a2d4e6b70'',
                ''sectorId'' := VInt 2)"

definition sample_table :: "row list" where
  "sample_table = [sample_row, sample_other_row]"

definition sample_picked_row :: row where
  "sample_picked_row =
     sample_row(''pickedBy'' := VStr ''7c9e6679-7425-40de-944b-e07fc1f90ae7'',
                ''status'' := VStr ''assigned'')"

definition sample_picked_table :: "row list" where
  "sample_picked_table = [sample_picked_row, sample_other_row]"

text \<open>A store of Work records, reduced to their descriptions.\<close>

definition sample_works :: "string \<rightharpoonup> string" where
  "sample_works = [''a5166002-89bb-4a3c-a34a-39b44d33c212'' \<mapsto> ''Paint fence'']"

section \<open>Properties of the routers\<close>

lemmas route_defs = router_post_def router_get_def router_put_def router_delete_def
lemmas seg_defs = path_pattern_def segments_def drop_leading_def drop_trailing_def

lemma table_eq: "map (\<lambda>r. (verb r, path r, permissions r)) (mounted mounts) = map (\<lambda>(v, p, c). (v, p, [c])) spec_resource_table"
  by (simp add: mounted_def mounts_def work_routes_def zone_routes_def group_routes_def route_defs permissions_def spec_resource_table_def)

lemma run_chain_granted:
  "run_chain req ms = None \<Longrightarrow> p \<in> set (concat (map (\<lambda>m. case m of checkPermission p \<Rightarrow> [p] | validation v \<Rightarrow> []) ms)) \<Longrightarrow> granted req p"
  by (induction req ms rule: run_chain.induct) (auto split: if_splits)

lemma router_handle_Handled:
  "router_handle rs req segs = Handled c ps \<Longrightarrow>
   \<exists>r \<in> set rs. handler r = c \<and> handles_method (verb r) (http_method req) \<and> run_chain req (chain r) = None"
  by (induction rs) (auto split: if_splits option.splits)

lemma app_use_Handled:
  "app_use ms req = Handled c ps \<Longrightarrow>
   \<exists>(prefix, routes) \<in> set ms. \<exists>r \<in> set routes.
      handler r = c \<and> handles_method (verb r) (http_method req) \<and> run_chain req (chain r) = None"
proof (induction ms)
  case Nil
  then show ?case by simp
next
  case (Cons m ms)
  obtain prefix routes where m: "m = (prefix, routes)" by (cases m)
  show ?case
  proof (cases "router_handle routes req (drop_leading (drop (length (path_pattern prefix)) (segments (pathname req)))) = Handled c ps")
    case True
    from router_handle_Handled[OF True] show ?thesis using m by auto
  next
    case False
    with Cons.prems m have "app_use ms req = Handled c ps"
      by (auto simp: Let_def split: if_splits outcome.splits)
    from Cons.IH[OF this] show ?thesis by auto
  qed
qed

lemma mounted_iff:
  "r' \<in> set (mounted ms) \<longleftrightarrow> (\<exists>(prefix, routes) \<in> set ms. \<exists>r \<in> set routes. r' = r\<lparr>path := prefix @ path r\<rparr>)"
  by (auto simp: mounted_def)

lemma app_Handled:
  assumes "app req = Handled c ps"
  shows "\<exists>r \<in> set (mounted mounts). handler r = c \<and> handles_method (verb r) (http_method req) \<and>
           (\<forall>p \<in> set (permissions r). granted req p)"
proof -
  from app_use_Handled[OF assms[unfolded app_def]]
  obtain prefix routes r where pr: "(prefix, routes) \<in> set mounts" "r \<in> set routes"
    and r: "handler r = c" "handles_method (verb r) (http_method req)" "run_chain req (chain r) = None"
    by auto
  let ?r = "r\<lparr>path := prefix @ path r\<rparr>"
  have "?r \<in> set (mounted mounts)" using pr unfolding mounted_iff by blast
  moreover have "\<forall>p \<in> set (permissions ?r). granted req p"
    using run_chain_granted[OF r(3)] by (simp add: permissions_def)
  ultimately show ?thesis using r by (intro bexI[of _ ?r]) auto
qed

lemma listed:
  assumes "r \<in> set (mounted mounts)"
  shows "\<exists>perm. (verb r, path r, perm) \<in> set spec_resource_table \<and> permissions r = [perm]"
proof -
  from assms have "(verb r, path r, permissions r) \<in> set (map (\<lambda>r. (verb r, path r, permissions r)) (mounted mounts))"
    by (simp add: image_iff) blast
  then have "(verb r, path r, permissions r) \<in> set (map (\<lambda>(v, p, c). (v, p, [c])) spec_resource_table)"
    by (simp only: table_eq)
  then show ?thesis by auto
qed

text \<open>
  C4. Every verb and path of the spec's resource table is registered, under its mount
  point, with a chain that starts with the permission check the table lists and holds no
  other permission check; and whenever the application hands a request to a controller,
  the request went through a registered route of the table whose permission the caller
  holds.
\<close>

theorem routes_gated_as_listed:
  "(\<forall>(v, p, perm) \<in> set spec_resource_table.
      \<exists>r \<in> set (mounted mounts). verb r = v \<and> path r = p \<and> permissions r = [perm] \<and>
        (\<exists>ms. chain r = checkPermission perm # ms))
   \<and> (\<forall>req c ps. app req = Handled c ps \<longrightarrow>
        (\<exists>r \<in> set (mounted mounts). handler r = c \<and> handles_method (verb r) (http_method req) \<and>
           (\<exists>perm. (verb r, path r, perm) \<in> set spec_resource_table \<and> granted req perm)))"
proof (intro conjI allI impI)
  show "\<forall>(v, p, perm) \<in> set spec_resource_table.
      \<exists>r \<in> set (mounted mounts). verb r = v \<and> path r = p \<and> permissions r = [perm] \<and>
        (\<exists>ms. chain r = checkPermission perm # ms)"
    by (simp add: spec_resource_table_def mounted_def mounts_def work_routes_def zone_routes_def group_routes_def route_defs permissions_def)
next
  fix req c ps
  assume "app req = Handled c ps"
  from app_Handled[OF this] obtain r where r: "r \<in> set (mounted mounts)" "handler r = c"
    "handles_method (verb r) (http_method req)" "\<forall>p \<in> set (permissions r). granted req p"
    by blast
  from listed[OF r(1)] obtain perm where "(verb r, path r, perm) \<in> set spec_resource_table" "permissions r = [perm]"
    by blast
  with r show "\<exists>r \<in> set (mounted mounts). handler r = c \<and> handles_method (verb r) (http_method req) \<and>
           (\<exists>perm. (verb r, path r, perm) \<in> set spec_resource_table \<and> granted req perm)"
    by auto
qed

theorem routes_gated_as_listed_witness:
  "(POST, ''/structure/work/create'', ''can_create_work'') \<in> set spec_resource_table
   \<and> (\<exists>r \<in> set (mounted mounts). verb r = POST \<and> path r = ''/structure/work/create'' \<and>
         permissions r = [''can_create_work''] \<and>
         (\<exists>ms. chain r = checkPermission ''can_create_work'' # ms))
   \<and> app \<lparr>http_method = DELETE, pathname = ''/structure/zone/3'',
           granted = (\<lambda>p. p = ''can_delete_zone_admin''), passes = (\<lambda>v. True)\<rparr>
       = Handled (Zone ''deleteOne'') [(''zone_user_id'', ''3'')]
   \<and> (\<exists>r \<in> set (mounted mounts). handler r = Zone ''deleteOne'' \<and> handles_method (verb r) DELETE \<and>
         (\<exists>perm. (verb r, path r, perm) \<in> set spec_resource_table \<and> perm = ''can_delete_zone_admin''))"
proof -
  let ?req = "\<lparr>http_method = DELETE, pathname = ''/structure/zone/3'',
           granted = (\<lambda>p. p = ''can_delete_zone_admin''), passes = (\<lambda>v. True)\<rparr>"
  have row: "(POST, ''/structure/work/create'', ''can_create_work'') \<in> set spec_resource_table"
    by (simp add: spec_resource_table_def)
  have run: "app ?req = Handled (Zone ''deleteOne'') [(''zone_user_id'', ''3'')]"
    by (simp add: app_def mounts_def work_routes_def zone_routes_def route_defs seg_defs
        handles_method_def lower_def decodeURIComponent_def)
  from routes_gated_as_listed row
  have one: "\<exists>r \<in> set (mounted mounts). verb r = POST \<and> path r = ''/structure/work/create'' \<and>
         permissions r = [''can_create_work''] \<and>
         (\<exists>ms. chain r = checkPermission ''can_create_work'' # ms)"
    by fast
  from routes_gated_as_listed run
  have "\<exists>r \<in> set (mounted mounts). handler r = Zone ''deleteOne'' \<and>
          handles_method (verb r) (http_method ?req) \<and>
          (\<exists>perm. (verb r, path r, perm) \<in> set spec_resource_table \<and> granted ?req perm)"
    by blast
  then have two: "\<exists>r \<in> set (mounted mounts). handler r = Zone ''deleteOne'' \<and> handles_method (verb r) DELETE \<and>
         (\<exists>perm. (verb r, path r, perm) \<in> set spec_resource_table \<and> perm = ''can_delete_zone_admin'')"
    by simp
  from row one run two show ?thesis by blast
qed


subsection \<open>First match wins\<close>

lemma matches_Nil [simp]: "matches [] segs = (segs = [])"
  by (cases segs) auto

lemma matches_Cons:
  "matches (p # ps) segs = (\<exists>s ss. segs = s # ss \<and> match_seg p s \<and> matches ps ss)"
  by (cases segs) auto

lemma keep_outcome:
  "(case out of Unrouted \<Rightarrow> Unrouted | Handled c ps \<Rightarrow> Handled c ps | Rejected why \<Rightarrow> Rejected why) = out"
  by (cases out) simp_all

lemma pattern_by_workId:
  "path_pattern ''/weeklyTask/:workId'' = [Lit ''weeklyTask'', Param ''workId'']"
  by (simp add: seg_defs)

lemma pattern_by_weekly_task_id:
  "path_pattern ''/weeklyTask/:weekly_task_id'' = [Lit ''weeklyTask'', Param ''weekly_task_id'']"
  by (simp add: seg_defs)

lemma same_pattern:
  "matches (path_pattern ''/weeklyTask/:workId'') segs =
   matches (path_pattern ''/weeklyTask/:weekly_task_id'') segs"
  by (simp add: pattern_by_workId pattern_by_weekly_task_id matches_Cons)

lemma router_handle_find:
  "router_handle rs req segs = Handled c ps \<Longrightarrow>
   \<exists>r. find (\<lambda>r. handles_method (verb r) (http_method req) \<and> matches (path_pattern (path r)) segs) rs = Some r
       \<and> handler r = c"
  by (induction rs) (auto split: if_splits option.splits)

lemma work_never_getWeeklyTask:
  "router_handle work_routes req segs \<noteq> Handled (Work ''getWeeklyTask'') ps"
proof
  assume "router_handle work_routes req segs = Handled (Work ''getWeeklyTask'') ps"
  from router_handle_find[OF this] obtain r where
    f: "find (\<lambda>r. handles_method (verb r) (http_method req) \<and> matches (path_pattern (path r)) segs) work_routes = Some r"
    and h: "handler r = Work ''getWeeklyTask''" by blast
  from f h show False
    by (auto simp: work_routes_def route_defs same_pattern split: if_splits)
qed

lemma app_use_from_router:
  "app_use ms req = Handled c ps \<Longrightarrow>
   \<exists>(prefix, routes) \<in> set ms. \<exists>segs. router_handle routes req segs = Handled c ps"
proof (induction ms)
  case Nil
  then show ?case by simp
next
  case (Cons m ms)
  obtain prefix routes where m: "m = (prefix, routes)" by (cases m)
  let ?segs = "drop_leading (drop (length (path_pattern prefix)) (segments (pathname req)))"
  show ?case
  proof (cases "router_handle routes req ?segs = Handled c ps")
    case True
    then show ?thesis using m by auto
  next
    case False
    with Cons.prems m have "app_use ms req = Handled c ps"
      by (auto simp: Let_def split: if_splits outcome.splits)
    from Cons.IH[OF this] show ?thesis by auto
  qed
qed

lemma app_never_getWeeklyTask: "app req \<noteq> Handled (Work ''getWeeklyTask'') ps"
proof
  assume "app req = Handled (Work ''getWeeklyTask'') ps"
  from app_use_from_router[OF this[unfolded app_def]]
  obtain prefix routes segs where m: "(prefix, routes) \<in> set mounts"
    and h: "router_handle routes req segs = Handled (Work ''getWeeklyTask'') ps"
    by auto
  from m have "routes = work_routes \<or> routes = zone_routes \<or> routes = group_routes"
    by (auto simp: mounts_def)
  then show False
  proof (elim disjE)
    assume "routes = work_routes"
    with h work_never_getWeeklyTask show False by simp
  next
    assume "routes = zone_routes"
    with router_handle_Handled[OF h] show False
      by (auto simp: zone_routes_def route_defs)
  next
    assume "routes = group_routes"
    with router_handle_Handled[OF h] show False
      by (auto simp: group_routes_def route_defs)
  qed
qed

subsection \<open>What a mounted router receives\<close>

lemma drop_leading_nonempty: "c \<noteq> [] \<Longrightarrow> drop_leading (c # rest) = c # rest"
  by (cases c) (simp_all add: drop_leading_def)

lemma app_work:
  assumes "segments (pathname req) = a # b # rest"
    and "map lower a = ''structure''" and "map lower b = ''work''"
  shows "app req = router_handle work_routes req (drop_leading rest)"
  using assms
  by (simp add: app_def mounts_def seg_defs lower_def Let_def keep_outcome
      split: outcome.splits)

lemma app_group:
  assumes "segments (pathname req) = a # b # rest"
    and "map lower a = ''structure''" and "map lower b = ''group''"
  shows "app req = router_handle group_routes req (drop_leading rest)"
  using assms
  by (simp add: app_def mounts_def seg_defs lower_def Let_def keep_outcome
      split: outcome.splits)

lemma work_weeklyTask_get:
  assumes "http_method req = GET" and "map lower c = ''weeklytask''" and "d \<noteq> []"
  shows "router_handle work_routes req [c, d] =
     (case decodeURIComponent d of
        None \<Rightarrow> Rejected Malformed
      | Some v \<Rightarrow>
          if granted req ''can_view_weeklyTask''
          then Handled (Work ''getWeeklyTaskById'') [(''weekly_task_id'', v)]
          else Rejected (Forbidden ''can_view_weeklyTask''))"
  using assms
  by (simp add: work_routes_def route_defs seg_defs handles_method_def lower_def
      split: option.splits)

lemma group_create_post:
  assumes "http_method req = POST" and "map lower c = ''create''"
  shows "router_handle group_routes req [c] =
     (if granted req ''can_create_group''
      then (if passes req ''createGroupValidation''
            then Handled (Group ''create'') []
            else Rejected (Invalid ''createGroupValidation''))
      else Rejected (Forbidden ''can_create_group''))"
  using assms
  by (simp add: group_routes_def route_defs seg_defs handles_method_def lower_def)

lemma group_get_all:
  assumes "http_method req = GET \<or> http_method req = HEAD" and "map lower c = ''get''"
  shows "router_handle group_routes req [c] =
     (if granted req ''can_view_group''
      then Handled (Group ''findAll'') []
      else Rejected (Forbidden ''can_view_group''))"
  using assms
  by (auto simp: group_routes_def route_defs seg_defs handles_method_def lower_def)

lemma group_get_one:
  assumes "http_method req = GET \<or> http_method req = HEAD" and "map lower c = ''get''"
    and "d \<noteq> []"
  shows "router_handle group_routes req [c, d] =
     (case decodeURIComponent d of
        None \<Rightarrow> Rejected Malformed
      | Some v \<Rightarrow>
          if granted req ''can_view_sector''
          then Handled (Group ''findOne'') [(''group_id'', v)]
          else Rejected (Forbidden ''can_view_sector''))"
  using assms
  by (auto simp: group_routes_def route_defs seg_defs handles_method_def lower_def
      split: option.splits)

lemma decode_uuid_sample:
  "decodeURIComponent ''a5166002-89bb-4a3c-a34a-39b44d33c212'' =
     Some ''a5166002-89bb-4a3c-a34a-39b44d33c212''"
  by (simp add: decodeURIComponent_def)

lemma decode_escaped_sample: "decodeURIComponent ''a%20b'' = Some ''a b''"
  by code_simp

lemma decode_lone_percent: "decodeURIComponent ''%'' = None"
  by (simp add: decodeURIComponent_def)

lemma weeklyTask_get_dispatch:
  assumes m: "http_method req = GET"
    and p: "matches (path_pattern ''/structure/work/weeklyTask/:x'') (segments (pathname req))"
  shows "app req =
     (case decodeURIComponent (last (segments (pathname req))) of
        None \<Rightarrow> Rejected Malformed
      | Some v \<Rightarrow>
          if granted req ''can_view_weeklyTask''
          then Handled (Work ''getWeeklyTaskById'') [(''weekly_task_id'', v)]
          else Rejected (Forbidden ''can_view_weeklyTask''))"
proof -
  have pat: "path_pattern ''/structure/work/weeklyTask/:x'' =
      [Lit ''structure'', Lit ''work'', Lit ''weeklyTask'', Param ''x'']"
    by (simp add: seg_defs)
  from p obtain a b c d where segs: "segments (pathname req) = [a, b, c, d]"
    and a: "match_seg (Lit ''structure'') a" and b: "match_seg (Lit ''work'') b"
    and c: "match_seg (Lit ''weeklyTask'') c" and d0: "match_seg (Param ''x'') d"
    unfolding pat by (auto simp: matches_Cons simp del: match_seg.simps)
  have a': "map lower a = ''structure''" using a by (simp add: lower_def)
  have b': "map lower b = ''work''" using b by (simp add: lower_def)
  have c': "map lower c = ''weeklytask''" using c by (simp add: lower_def)
  have d: "d \<noteq> []" using d0 by simp
  have cne: "c \<noteq> []" using c' by auto
  have "app req = router_handle work_routes req (drop_leading [c, d])"
    using segs a' b' by (rule app_work)
  also have "\<dots> = router_handle work_routes req [c, d]"
    using cne by (simp add: drop_leading_nonempty)
  finally show ?thesis
    by (simp add: work_weeklyTask_get[OF m c' d] segs)
qed

text \<open>
  C9. A GET request whose path matches \<open>/structure/work/weeklyTask/:x\<close> goes to the first
  registration for that pattern: when the parameter decodes, the request passes the
  permission check and reaches \<open>getWeeklyTaskById\<close> with the decoded value; when it does
  not, the answer is the decoding error. The registration of \<open>getWeeklyTask\<close> comes later
  in the router with the same pattern, and no request at all reaches that controller.
\<close>

theorem weeklyTask_get_first_registration:
  "(\<forall>req. http_method req = GET \<and>
        matches (path_pattern ''/structure/work/weeklyTask/:x'') (segments (pathname req)) \<longrightarrow>
      app req =
        (case decodeURIComponent (last (segments (pathname req))) of
           None \<Rightarrow> Rejected Malformed
         | Some v \<Rightarrow>
             if granted req ''can_view_weeklyTask''
             then Handled (Work ''getWeeklyTaskById'') [(''weekly_task_id'', v)]
             else Rejected (Forbidden ''can_view_weeklyTask'')))
   \<and> (\<forall>req ps. app req \<noteq> Handled (Work ''getWeeklyTask'') ps)
   \<and> work_routes ! 8 =
        router_get ''/weeklyTask/:weekly_task_id'' [checkPermission ''can_view_weeklyTask'']
          (Work ''getWeeklyTaskById'')
   \<and> work_routes ! 9 =
        router_get ''/weeklyTask/:workId'' [checkPermission ''can_view_weeklyTask'']
          (Work ''getWeeklyTask'')"
proof (intro conjI allI impI)
  fix req :: request
  assume "http_method req = GET \<and>
        matches (path_pattern ''/structure/work/weeklyTask/:x'') (segments (pathname req))"
  then show "app req =
        (case decodeURIComponent (last (segments (pathname req))) of
           None \<Rightarrow> Rejected Malformed
         | Some v \<Rightarrow>
             if granted req ''can_view_weeklyTask''
             then Handled (Work ''getWeeklyTaskById'') [(''weekly_task_id'', v)]
             else Rejected (Forbidden ''can_view_weeklyTask''))"
    using weeklyTask_get_dispatch by blast
next
  fix req :: request and ps
  show "app req \<noteq> Handled (Work ''getWeeklyTask'') ps"
    by (rule app_never_getWeeklyTask)
next
  show "work_routes ! 8 =
        router_get ''/weeklyTask/:weekly_task_id'' [checkPermission ''can_view_weeklyTask'']
          (Work ''getWeeklyTaskById'')"
    by (simp add: work_routes_def)
next
  show "work_routes ! 9 =
        router_get ''/weeklyTask/:workId'' [checkPermission ''can_view_weeklyTask'']
          (Work ''getWeeklyTask'')"
    by (simp add: work_routes_def)
qed

lemma sample_weeklyTask_paths:
  "segments ''/structure/work/weeklyTask/a5166002-89bb-4a3c-a34a-39b44d33c212'' =
     [''structure'', ''work'', ''weeklyTask'', ''a5166002-89bb-4a3c-a34a-39b44d33c212'']"
  "segments ''/structure/work/weeklyTask/a%20b'' = [''structure'', ''work'', ''weeklyTask'', ''a%20b'']"
  "segments ''/structure/work/weeklyTask/%'' = [''structure'', ''work'', ''weeklyTask'', ''%'']"
  by (simp_all add: seg_defs)

lemma sample_weeklyTask_matches:
  "matches (path_pattern ''/structure/work/weeklyTask/:x'')
     [''structure'', ''work'', ''weeklyTask'', d] \<longleftrightarrow> d \<noteq> []"
  by (simp add: seg_defs)

theorem weeklyTask_get_first_registration_witness:
  "matches (path_pattern ''/structure/work/weeklyTask/:x'')
     (segments ''/structure/work/weeklyTask/a5166002-89bb-4a3c-a34a-39b44d33c212'')
   \<and> app (sample_request GET ''/structure/work/weeklyTask/a5166002-89bb-4a3c-a34a-39b44d33c212'')
      = Handled (Work ''getWeeklyTaskById'')
          [(''weekly_task_id'', ''a5166002-89bb-4a3c-a34a-39b44d33c212'')]
   \<and> matches (path_pattern ''/structure/work/weeklyTask/:x'')
        (segments ''/structure/work/weeklyTask/a%20b'')
   \<and> app (sample_request GET ''/structure/work/weeklyTask/a%20b'')
      = Handled (Work ''getWeeklyTaskById'') [(''weekly_task_id'', ''a b'')]"
proof -
  have m1: "matches (path_pattern ''/structure/work/weeklyTask/:x'')
     (segments ''/structure/work/weeklyTask/a5166002-89bb-4a3c-a34a-39b44d33c212'')"
    by (simp add: sample_weeklyTask_paths sample_weeklyTask_matches)
  have m2: "matches (path_pattern ''/structure/work/weeklyTask/:x'')
        (segments ''/structure/work/weeklyTask/a%20b'')"
    by (simp add: sample_weeklyTask_paths sample_weeklyTask_matches)
  note all = weeklyTask_get_first_registration[THEN conjunct1, rule_format]
  have r1: "app (sample_request GET ''/structure/work/weeklyTask/a5166002-89bb-4a3c-a34a-39b44d33c212'')
      = Handled (Work ''getWeeklyTaskById'')
          [(''weekly_task_id'', ''a5166002-89bb-4a3c-a34a-39b44d33c212'')]"
    using all[of "sample_request GET ''/structure/work/weeklyTask/a5166002-89bb-4a3c-a34a-39b44d33c212''"] m1
    by (simp add: sample_request_def sample_weeklyTask_paths decode_uuid_sample)
  have r2: "app (sample_request GET ''/structure/work/weeklyTask/a%20b'')
      = Handled (Work ''getWeeklyTaskById'') [(''weekly_task_id'', ''a b'')]"
    using all[of "sample_request GET ''/structure/work/weeklyTask/a%20b''"] m2
    by (simp add: sample_request_def sample_weeklyTask_paths decode_escaped_sample)
  from m1 r1 m2 r2 show ?thesis by blast
qed

theorem weeklyTask_get_undecodable_counterexample:
  "http_method (sample_request GET ''/structure/work/weeklyTask/%'') = GET
   \<and> matches (path_pattern ''/structure/work/weeklyTask/:x'')
        (segments (pathname (sample_request GET ''/structure/work/weeklyTask/%'')))
   \<and> app (sample_request GET ''/structure/work/weeklyTask/%'') = Rejected Malformed"
proof -
  let ?req = "sample_request GET ''/structure/work/weeklyTask/%''"
  have m: "http_method ?req = GET" by (simp add: sample_request_def)
  have segs: "segments (pathname ?req) = [''structure'', ''work'', ''weeklyTask'', ''%'']"
    by (simp add: sample_request_def sample_weeklyTask_paths)
  have p: "matches (path_pattern ''/structure/work/weeklyTask/:x'') (segments (pathname ?req))"
    by (simp add: segs sample_weeklyTask_matches)
  have "app ?req = router_handle work_routes ?req (drop_leading [''weeklyTask'', ''%''])"
    by (rule app_work[OF segs]) (simp_all add: lower_def)
  also have "\<dots> = Rejected Malformed"
    by (simp add: drop_leading_nonempty work_weeklyTask_get m lower_def decode_lone_percent)
  finally show ?thesis using m p by simp
qed

lemma group_create_dispatch:
  assumes m: "http_method req = POST"
    and p: "matches (path_pattern ''/structure/group/create'') (segments (pathname req))"
  shows "app req =
     (if granted req ''can_create_group''
      then (if passes req ''createGroupValidation''
            then Handled (Group ''create'') []
            else Rejected (Invalid ''createGroupValidation''))
      else Rejected (Forbidden ''can_create_group''))"
proof -
  have pat: "path_pattern ''/structure/group/create'' =
      [Lit ''structure'', Lit ''group'', Lit ''create'']"
    by (simp add: seg_defs)
  from p obtain a b c where segs: "segments (pathname req) = [a, b, c]"
    and a0: "match_seg (Lit ''structure'') a" and b0: "match_seg (Lit ''group'') b"
    and c0: "match_seg (Lit ''create'') c"
    unfolding pat by (auto simp: matches_Cons simp del: match_seg.simps)
  have a: "map lower a = ''structure''" using a0 by (simp add: lower_def)
  have b: "map lower b = ''group''" using b0 by (simp add: lower_def)
  have c: "map lower c = ''create''" using c0 by (simp add: lower_def)
  then have cne: "c \<noteq> []" by auto
  have "app req = router_handle group_routes req (drop_leading [c])"
    using segs a b by (rule app_group)
  also have "\<dots> = router_handle group_routes req [c]"
    using cne by (simp add: drop_leading_nonempty)
  finally show ?thesis
    by (simp add: group_create_post[OF m c])
qed

lemma group_findAll_dispatch:
  assumes m: "http_method req = GET \<or> http_method req = HEAD"
    and p: "matches (path_pattern ''/structure/group/get'') (segments (pathname req))"
  shows "app req =
     (if granted req ''can_view_group''
      then Handled (Group ''findAll'') []
      else Rejected (Forbidden ''can_view_group''))"
proof -
  have pat: "path_pattern ''/structure/group/get'' = [Lit ''structure'', Lit ''group'', Lit ''get'']"
    by (simp add: seg_defs)
  from p obtain a b c where segs: "segments (pathname req) = [a, b, c]"
    and a0: "match_seg (Lit ''structure'') a" and b0: "match_seg (Lit ''group'') b"
    and c0: "match_seg (Lit ''get'') c"
    unfolding pat by (auto simp: matches_Cons simp del: match_seg.simps)
  have a: "map lower a = ''structure''" using a0 by (simp add: lower_def)
  have b: "map lower b = ''group''" using b0 by (simp add: lower_def)
  have c: "map lower c = ''get''" using c0 by (simp add: lower_def)
  then have cne: "c \<noteq> []" by auto
  have "app req = router_handle group_routes req (drop_leading [c])"
    using segs a b by (rule app_group)
  also have "\<dots> = router_handle group_routes req [c]"
    using cne by (simp add: drop_leading_nonempty)
  finally show ?thesis
    by (simp add: group_get_all[OF m c])
qed

lemma group_findOne_dispatch:
  assumes m: "http_method req = GET \<or> http_method req = HEAD"
    and p: "matches (path_pattern ''/structure/group/get/:group_id'') (segments (pathname req))"
  shows "app req =
     (case decodeURIComponent (last (segments (pathname req))) of
        None \<Rightarrow> Rejected Malformed
      | Some v \<Rightarrow>
          if granted req ''can_view_sector''
          then Handled (Group ''findOne'') [(''group_id'', v)]
          else Rejected (Forbidden ''can_view_sector''))"
proof -
  have pat: "path_pattern ''/structure/group/get/:group_id'' =
      [Lit ''structure'', Lit ''group'', Lit ''get'', Param ''group_id'']"
    by (simp add: seg_defs)
  from p obtain a b c d where segs: "segments (pathname req) = [a, b, c, d]"
    and a0: "match_seg (Lit ''structure'') a" and b0: "match_seg (Lit ''group'') b"
    and c0: "match_seg (Lit ''get'') c" and d0: "match_seg (Param ''group_id'') d"
    unfolding pat by (auto simp: matches_Cons simp del: match_seg.simps)
  have a: "map lower a = ''structure''" using a0 by (simp add: lower_def)
  have b: "map lower b = ''group''" using b0 by (simp add: lower_def)
  have c: "map lower c = ''get''" using c0 by (simp add: lower_def)
  then have cne: "c \<noteq> []" by auto
  have d: "d \<noteq> []" using d0 by simp
  have "app req = router_handle group_routes req (drop_leading [c, d])"
    using segs a b by (rule app_group)
  also have "\<dots> = router_handle group_routes req [c, d]"
    using cne by (simp add: drop_leading_nonempty)
  finally show ?thesis
    by (simp add: group_get_one[OF m c d] segs)
qed

text \<open>
  C5. The group router registers three routes and no more: create, list all, get by id.
  Each of the three is reached by the requests for its verb and path, past its permission
  check (and, for create, its validation). The router answers no PUT, PATCH or DELETE
  request, and a request that reaches a controller of the group module reaches one of
  those three, by POST, GET or HEAD.
\<close>

theorem group_three_operations:
  "map (\<lambda>r. (verb r, path r, handler r)) group_routes =
     [(POST, ''/create'', Group ''create''),
      (GET, ''/get'', Group ''findAll''),
      (GET, ''/get/:group_id'', Group ''findOne'')]
   \<and> (\<forall>req segs. http_method req \<in> {PUT, PATCH, DELETE} \<longrightarrow>
         router_handle group_routes req segs \<in> {Unrouted, Rejected Malformed})
   \<and> (\<forall>req c ps. app req = Handled (Group c) ps \<longrightarrow>
         c \<in> {''create'', ''findAll'', ''findOne''} \<and> http_method req \<in> {POST, GET, HEAD})
   \<and> (\<forall>req. http_method req = POST \<and>
          matches (path_pattern ''/structure/group/create'') (segments (pathname req)) \<longrightarrow>
        app req =
          (if granted req ''can_create_group''
           then (if passes req ''createGroupValidation''
                 then Handled (Group ''create'') []
                 else Rejected (Invalid ''createGroupValidation''))
           else Rejected (Forbidden ''can_create_group'')))
   \<and> (\<forall>req. (http_method req = GET \<or> http_method req = HEAD) \<and>
          matches (path_pattern ''/structure/group/get'') (segments (pathname req)) \<longrightarrow>
        app req =
          (if granted req ''can_view_group''
           then Handled (Group ''findAll'') []
           else Rejected (Forbidden ''can_view_group'')))
   \<and> (\<forall>req. (http_method req = GET \<or> http_method req = HEAD) \<and>
          matches (path_pattern ''/structure/group/get/:group_id'') (segments (pathname req)) \<longrightarrow>
        app req =
          (case decodeURIComponent (last (segments (pathname req))) of
             None \<Rightarrow> Rejected Malformed
           | Some v \<Rightarrow>
               if granted req ''can_view_sector''
               then Handled (Group ''findOne'') [(''group_id'', v)]
               else Rejected (Forbidden ''can_view_sector'')))"
proof (intro conjI allI impI)
  show "map (\<lambda>r. (verb r, path r, handler r)) group_routes =
     [(POST, ''/create'', Group ''create''),
      (GET, ''/get'', Group ''findAll''),
      (GET, ''/get/:group_id'', Group ''findOne'')]"
    by (simp add: group_routes_def route_defs)
next
  fix req :: request and segs
  assume "http_method req \<in> {PUT, PATCH, DELETE}"
  then show "router_handle group_routes req segs \<in> {Unrouted, Rejected Malformed}"
    by (auto simp: group_routes_def route_defs handles_method_def split: option.splits)
next
  fix req :: request and c ps
  assume "app req = Handled (Group c) ps"
  from app_use_Handled[OF this[unfolded app_def]]
  obtain prefix routes r where m: "(prefix, routes) \<in> set mounts" and r: "r \<in> set routes"
    and h: "handler r = Group c" and v: "handles_method (verb r) (http_method req)"
    by auto
  from m have "routes = work_routes \<or> routes = zone_routes \<or> routes = group_routes"
    by (auto simp: mounts_def)
  then have "c \<in> {''create'', ''findAll'', ''findOne''} \<and> verb r \<in> {POST, GET}"
    using r h by (auto simp: work_routes_def zone_routes_def group_routes_def route_defs)
  with v show "c \<in> {''create'', ''findAll'', ''findOne''}"
    and "http_method req \<in> {POST, GET, HEAD}"
    by (auto simp: handles_method_def)
next
  fix req :: request
  assume "http_method req = POST \<and>
          matches (path_pattern ''/structure/group/create'') (segments (pathname req))"
  then show "app req =
          (if granted req ''can_create_group''
           then (if passes req ''createGroupValidation''
                 then Handled (Group ''create'') []
                 else Rejected (Invalid ''createGroupValidation''))
           else Rejected (Forbidden ''can_create_group''))"
    using group_create_dispatch by blast
next
  fix req :: request
  assume "(http_method req = GET \<or> http_method req = HEAD) \<and>
          matches (path_pattern ''/structure/group/get'') (segments (pathname req))"
  then show "app req =
          (if granted req ''can_view_group''
           then Handled (Group ''findAll'') []
           else Rejected (Forbidden ''can_view_group''))"
    using group_findAll_dispatch by blast
next
  fix req :: request
  assume "(http_method req = GET \<or> http_method req = HEAD) \<and>
          matches (path_pattern ''/structure/group/get/:group_id'') (segments (pathname req))"
  then show "app req =
          (case decodeURIComponent (last (segments (pathname req))) of
             None \<Rightarrow> Rejected Malformed
           | Some v \<Rightarrow>
               if granted req ''can_view_sector''
               then Handled (Group ''findOne'') [(''group_id'', v)]
               else Rejected (Forbidden ''can_view_sector''))"
    using group_findOne_dispatch by blast
qed


lemma sample_group_paths:
  "segments ''/structure/group/create'' = [''structure'', ''group'', ''create'']"
  "segments ''/structure/group/get'' = [''structure'', ''group'', ''get'']"
  "segments ''/structure/group/get/5'' = [''structure'', ''group'', ''get'', ''5'']"
  by (simp_all add: seg_defs)

theorem group_three_operations_witness:
  "http_method (sample_request DELETE ''/structure/group/delete/5'') = DELETE
   \<and> router_handle group_routes (sample_request DELETE ''/structure/group/delete/5'')
        [''delete'', ''5''] = Unrouted
   \<and> matches (path_pattern ''/structure/group/create'') (segments ''/structure/group/create'')
   \<and> app (sample_request POST ''/structure/group/create'') = Handled (Group ''create'') []
   \<and> matches (path_pattern ''/structure/group/get'') (segments ''/structure/group/get'')
   \<and> app (sample_request GET ''/structure/group/get'') = Handled (Group ''findAll'') []
   \<and> matches (path_pattern ''/structure/group/get/:group_id'') (segments ''/structure/group/get/5'')
   \<and> app (sample_request GET ''/structure/group/get/5'')
        = Handled (Group ''findOne'') [(''group_id'', ''5'')]"
proof -
  note t = group_three_operations
  have d: "http_method (sample_request DELETE ''/structure/group/delete/5'') = DELETE"
    by (simp add: sample_request_def)
  from t d have "router_handle group_routes (sample_request DELETE ''/structure/group/delete/5'')
        [''delete'', ''5''] \<in> {Unrouted, Rejected Malformed}"
    by blast
  moreover have "router_handle group_routes (sample_request DELETE ''/structure/group/delete/5'')
        [''delete'', ''5''] \<noteq> Rejected Malformed"
    by (simp add: group_routes_def route_defs seg_defs lower_def handles_method_def
        sample_request_def decodeURIComponent_def)
  ultimately have one: "router_handle group_routes
        (sample_request DELETE ''/structure/group/delete/5'') [''delete'', ''5''] = Unrouted"
    by blast
  have m1: "matches (path_pattern ''/structure/group/create'') (segments ''/structure/group/create'')"
    by (simp add: seg_defs)
  have m2: "matches (path_pattern ''/structure/group/get'') (segments ''/structure/group/get'')"
    by (simp add: seg_defs)
  have m3: "matches (path_pattern ''/structure/group/get/:group_id'') (segments ''/structure/group/get/5'')"
    by (simp add: seg_defs)
  have a1: "app (sample_request POST ''/structure/group/create'') = Handled (Group ''create'') []"
    using t[THEN conjunct2, THEN conjunct2, THEN conjunct2, THEN conjunct1, rule_format,
        of "sample_request POST ''/structure/group/create''"] m1
    by (simp add: sample_request_def)
  have a2: "app (sample_request GET ''/structure/group/get'') = Handled (Group ''findAll'') []"
    using t[THEN conjunct2, THEN conjunct2, THEN conjunct2, THEN conjunct2, THEN conjunct1,
        rule_format, of "sample_request GET ''/structure/group/get''"] m2
    by (simp add: sample_request_def)
  have a3: "app (sample_request GET ''/structure/group/get/5'')
        = Handled (Group ''findOne'') [(''group_id'', ''5'')]"
    using t[THEN conjunct2, THEN conjunct2, THEN conjunct2, THEN conjunct2, THEN conjunct2,
        rule_format, of "sample_request GET ''/structure/group/get/5''"] m3
    by (simp add: sample_request_def sample_group_paths decodeURIComponent_def)
  from d one m1 a1 m2 a2 m3 a3 show ?thesis by blast
qed

section \<open>Properties of the model\<close>

lemma violation_None_iff:
  "violation m r = None \<longleftrightarrow>
     (\<forall>(n, a) \<in> set m. if r n = VNull then allowNull a else holds (type a) (r n))"
  by (induction m r rule: violation.induct) auto

lemma holds_INTEGER_D: "holds INTEGER v \<Longrightarrow> \<exists>i. v = VInt i"
  by (cases v) auto

lemma holds_not_null [simp]: "\<not> holds ty VNull"
  by (cases ty) auto

lemma conforms_WeeklyTask:
  "conforms WeeklyTask r \<longleftrightarrow>
     holds UUID (r ''weekly_task_id'') \<and> holds STRING (r ''description'') \<and>
     holds STRING (r ''status'') \<and> holds UUID (r ''workId'') \<and>
     holds INTEGER (r ''weekNumber'') \<and> holds INTEGER (r ''sectorId'') \<and>
     (r ''pickedBy'' = VNull \<or> holds UUID (r ''pickedBy'')) \<and>
     holds DATE (r ''createdAt'') \<and> holds DATE (r ''updatedAt'')"
  unfolding conforms_def violation_None_iff
  by (auto simp: WeeklyTask_def)

text \<open>
  C10. In a table of the model every row has non-null weekly_task_id, description, status,
  workId, weekNumber, sectorId, createdAt and updatedAt; pickedBy is the one attribute that
  allows null; weekNumber and sectorId hold integers, and the same row with a string in
  either of them is not a row the table holds.
\<close>

theorem persisted_row_shape:
  assumes "valid_table WeeklyTask t" and "r \<in> set t"
  shows "r ''weekly_task_id'' \<noteq> VNull \<and> r ''description'' \<noteq> VNull \<and> r ''status'' \<noteq> VNull \<and>
         r ''workId'' \<noteq> VNull \<and> r ''weekNumber'' \<noteq> VNull \<and> r ''sectorId'' \<noteq> VNull \<and>
         r ''createdAt'' \<noteq> VNull \<and> r ''updatedAt'' \<noteq> VNull
       \<and> nullable WeeklyTask = [''pickedBy'']
       \<and> conforms WeeklyTask (r(''pickedBy'' := VNull))
       \<and> (\<exists>i. r ''weekNumber'' = VInt i) \<and> (\<exists>i. r ''sectorId'' = VInt i)
       \<and> (\<forall>s. \<not> conforms WeeklyTask (r(''sectorId'' := VStr s)))
       \<and> (\<forall>s. \<not> conforms WeeklyTask (r(''weekNumber'' := VStr s)))"
proof -
  from assms have c: "conforms WeeklyTask r"
    by (simp add: valid_table_def list_all_iff)
  then have nn: "r ''weekly_task_id'' \<noteq> VNull \<and> r ''description'' \<noteq> VNull \<and> r ''status'' \<noteq> VNull \<and>
         r ''workId'' \<noteq> VNull \<and> r ''weekNumber'' \<noteq> VNull \<and> r ''sectorId'' \<noteq> VNull \<and>
         r ''createdAt'' \<noteq> VNull \<and> r ''updatedAt'' \<noteq> VNull"
    unfolding conforms_WeeklyTask by auto
  have nu: "nullable WeeklyTask = [''pickedBy'']"
    by (simp add: nullable_def WeeklyTask_def)
  from c have pb: "conforms WeeklyTask (r(''pickedBy'' := VNull))"
    unfolding conforms_WeeklyTask by simp
  from c have ints: "(\<exists>i. r ''weekNumber'' = VInt i) \<and> (\<exists>i. r ''sectorId'' = VInt i)"
    unfolding conforms_WeeklyTask by (blast dest: holds_INTEGER_D)
  have s1: "\<forall>s. \<not> conforms WeeklyTask (r(''sectorId'' := VStr s))"
    unfolding conforms_WeeklyTask by simp
  have s2: "\<forall>s. \<not> conforms WeeklyTask (r(''weekNumber'' := VStr s))"
    unfolding conforms_WeeklyTask by simp
  from nn nu pb ints s1 s2 show ?thesis by blast
qed

lemma sample_row_conforms: "conforms WeeklyTask sample_row"
  unfolding conforms_WeeklyTask
  by (simp add: sample_row_def sample_attrs_def sample_generated_def weekly_task_attrs_def
      build_def WeeklyTask_def is_uuid_def is_hex_def)

theorem persisted_row_shape_witness:
  "valid_table WeeklyTask [sample_row] \<and> sample_row \<in> set [sample_row]
   \<and> sample_row ''sectorId'' = VInt 1 \<and> sample_row ''pickedBy'' = VNull
   \<and> sample_row ''description'' \<noteq> VNull
   \<and> \<not> conforms WeeklyTask (sample_row(''sectorId'' := VStr ''5725a78a-98cf-4da8-96ab-cc72a5b5af0a''))
   \<and> \<not> conforms WeeklyTask (sample_row(''weekNumber'' := VStr ''4''))"
proof -
  have v: "valid_table WeeklyTask [sample_row]"
    by (simp add: valid_table_def sample_row_conforms)
  have m: "sample_row \<in> set [sample_row]" by simp
  have vals: "sample_row ''sectorId'' = VInt 1 \<and> sample_row ''pickedBy'' = VNull"
    by (simp add: sample_row_def sample_attrs_def weekly_task_attrs_def build_def WeeklyTask_def)
  from persisted_row_shape[OF v m] v m vals show ?thesis by blast
qed

subsection \<open>Creating rows\<close>

lemma pk_WeeklyTask [simp]: "pk WeeklyTask r = [r ''weekly_task_id'']"
  by (simp add: pk_def WeeklyTask_def)










lemma sample_row_id:
  "sample_row ''weekly_task_id'' = VStr ''a5166002-89bb-4a3c-a34a-39b44d33c212''"
  by (simp add: sample_row_def sample_attrs_def sample_generated_def weekly_task_attrs_def
      build_def WeeklyTask_def)




section \<open>Properties of the controllers\<close>

lemma coerce_null [simp]: "coerce ty VNull = VNull"
  by (cases ty) simp_all

lemma coerce_UUID [simp]: "coerce UUID v = v"
  by (cases v) simp_all











lemma unique_by_id:
  "distinct (map (\<lambda>r. r ''weekly_task_id'') t) \<Longrightarrow> q \<in> set t \<Longrightarrow> r \<in> set t \<Longrightarrow>
   r ''weekly_task_id'' = q ''weekly_task_id'' \<Longrightarrow> r = q"
  by (auto simp: distinct_map dest: inj_onD)

lemma find_map_by_id:
  assumes keep: "\<And>r. f r ''weekly_task_id'' = r ''weekly_task_id''"
  shows "q \<in> set t \<Longrightarrow> distinct (map (\<lambda>r. r ''weekly_task_id'') t) \<Longrightarrow>
         find (\<lambda>r. r ''weekly_task_id'' = q ''weekly_task_id'') (map f t) = Some (f q)"
proof (induction t)
  case Nil
  then show ?case by simp
next
  case (Cons a t)
  show ?case
  proof (cases "a = q")
    case True
    then show ?thesis by (simp add: keep)
  next
    case False
    with Cons.prems have q: "q \<in> set t" and d: "distinct (map (\<lambda>r. r ''weekly_task_id'') t)"
      and ne: "a ''weekly_task_id'' \<noteq> q ''weekly_task_id''"
      by (auto simp: image_iff)
    from Cons.IH[OF q d] ne show ?thesis by (simp add: keep)
  qed
qed

lemma no_unclaimed_iff:
  assumes "q \<in> set t" and "distinct (map (\<lambda>r. r ''weekly_task_id'') t)"
    and "q ''weekly_task_id'' = VStr z"
  shows "filter (unclaimed z) t = [] \<longleftrightarrow> q ''pickedBy'' \<noteq> VNull"
proof
  assume "filter (unclaimed z) t = []"
  with assms(1) have "\<not> unclaimed z q"
    by (simp add: filter_empty_conv)
  then show "q ''pickedBy'' \<noteq> VNull" using assms(3) by (simp add: unclaimed_def)
next
  assume taken: "q ''pickedBy'' \<noteq> VNull"
  have "\<forall>r \<in> set t. \<not> unclaimed z r"
  proof
    fix r assume r: "r \<in> set t"
    show "\<not> unclaimed z r"
    proof
      assume u: "unclaimed z r"
      then have "r ''weekly_task_id'' = q ''weekly_task_id''"
        using assms(3) by (simp add: unclaimed_def)
      from unique_by_id[OF assms(2) assms(1) r this] have "r = q" .
      with u taken show False by (simp add: unclaimed_def)
    qed
  qed
  then show "filter (unclaimed z) t = []"
    by (simp add: filter_empty_conv)
qed

text \<open>
  C2. For a task \<open>q\<close> of the table, with id \<open>z\<close>, and a user \<open>u\<close>: the call succeeds
  exactly when \<open>q\<close> has no picker; then the task is found in the new table with pickedBy
  \<open>u\<close> and a status that is not unassigned; otherwise the answer is a conflict and the
  table is as it was, so that the task is found in it unchanged, with the pickedBy and the
  status it had.
\<close>

theorem pickWork_compare_and_set:
  assumes "q \<in> set t" and "distinct (map (\<lambda>r. r ''weekly_task_id'') t)"
    and "q ''weekly_task_id'' = VStr z"
  shows "(snd (pickWork t z u) = Picked \<longleftrightarrow> q ''pickedBy'' = VNull)
       \<and> (q ''pickedBy'' = VNull \<longrightarrow>
            (\<exists>q'. find (\<lambda>r. r ''weekly_task_id'' = VStr z) (fst (pickWork t z u)) = Some q' \<and>
                  q' ''pickedBy'' = VStr u \<and> q' ''pickedBy'' \<noteq> VNull \<and>
                  q' ''status'' \<noteq> VStr ''unassigned''))
       \<and> (q ''pickedBy'' \<noteq> VNull \<longrightarrow>
            pickWork t z u = (t, Conflict) \<and>
            find (\<lambda>r. r ''weekly_task_id'' = VStr z) (fst (pickWork t z u)) = Some q)"
proof -
  let ?f = "\<lambda>r. if unclaimed z r then r(''pickedBy'' := VStr u, ''status'' := picked_status) else r"
  note iff = no_unclaimed_iff[OF assms]
  have keep: "\<And>r. ?f r ''weekly_task_id'' = r ''weekly_task_id''" by simp
  have a: "snd (pickWork t z u) = Picked \<longleftrightarrow> q ''pickedBy'' = VNull"
    using iff by (auto simp: pickWork_def)
  have b: "q ''pickedBy'' = VNull \<longrightarrow>
            (\<exists>q'. find (\<lambda>r. r ''weekly_task_id'' = VStr z) (fst (pickWork t z u)) = Some q' \<and>
                  q' ''pickedBy'' = VStr u \<and> q' ''pickedBy'' \<noteq> VNull \<and>
                  q' ''status'' \<noteq> VStr ''unassigned'')"
  proof
    assume free: "q ''pickedBy'' = VNull"
    with iff have new: "fst (pickWork t z u) = map ?f t"
      by (simp add: pickWork_def)
    have found: "find (\<lambda>r. r ''weekly_task_id'' = q ''weekly_task_id'') (map ?f t) = Some (?f q)"
      using keep assms(1,2) by (rule find_map_by_id)
    have fq: "?f q = q(''pickedBy'' := VStr u, ''status'' := picked_status)"
      using free assms(3) by (simp add: unclaimed_def)
    show "\<exists>q'. find (\<lambda>r. r ''weekly_task_id'' = VStr z) (fst (pickWork t z u)) = Some q' \<and>
                  q' ''pickedBy'' = VStr u \<and> q' ''pickedBy'' \<noteq> VNull \<and>
                  q' ''status'' \<noteq> VStr ''unassigned''"
      unfolding new using found[unfolded assms(3) fq] by (simp add: picked_status_def)
  qed
  have c: "q ''pickedBy'' \<noteq> VNull \<longrightarrow>
            pickWork t z u = (t, Conflict) \<and>
            find (\<lambda>r. r ''weekly_task_id'' = VStr z) (fst (pickWork t z u)) = Some q"
  proof
    assume taken: "q ''pickedBy'' \<noteq> VNull"
    with iff have same: "pickWork t z u = (t, Conflict)" by (simp add: pickWork_def)
    have "find (\<lambda>r. r ''weekly_task_id'' = q ''weekly_task_id'') (map (\<lambda>r. r) t) = Some q"
      using assms(1,2) by (intro find_map_by_id) simp
    then have "find (\<lambda>r. r ''weekly_task_id'' = VStr z) t = Some q"
      by (simp add: assms(3))
    with same show "pickWork t z u = (t, Conflict) \<and>
            find (\<lambda>r. r ''weekly_task_id'' = VStr z) (fst (pickWork t z u)) = Some q"
      by simp
  qed
  from a b c show ?thesis by blast
qed

lemma sample_table_ids:
  "sample_row ''weekly_task_id'' = VStr ''a5166002-89bb-4a3c-a34a-39b44d33c212''"
  "sample_picked_row ''weekly_task_id'' = VStr ''a5166002-89bb-4a3c-a34a-39b44d33c212''"
  "sample_other_row ''weekly_task_id'' = VStr ''0b9f6c1e-7d2a-4e58-9c3b-5f1a2d4e6b70''"
  by (simp_all add: sample_row_id sample_picked_row_def sample_other_row_def)

lemma sample_pickers:
  "sample_row ''pickedBy'' = VNull"
  "sample_picked_row ''pickedBy'' = VStr ''7c9e6679-7425-40de-944b-e07fc1f90ae7''"
  "sample_picked_row ''status'' = VStr ''assigned''"
  by (simp_all add: sample_picked_row_def sample_row_def sample_attrs_def weekly_task_attrs_def
      build_def WeeklyTask_def)

lemma sample_pick:
  "pickWork sample_table ''a5166002-89bb-4a3c-a34a-39b44d33c212''
     ''7c9e6679-7425-40de-944b-e07fc1f90ae7'' = (sample_picked_table, Picked)"
  by (simp add: pickWork_def unclaimed_def sample_table_def sample_picked_table_def
      sample_picked_row_def picked_status_def sample_table_ids sample_pickers)

theorem pickWork_compare_and_set_witness:
  "sample_row \<in> set sample_table
   \<and> distinct (map (\<lambda>r. r ''weekly_task_id'') sample_table)
   \<and> sample_row ''pickedBy'' = VNull
   \<and> snd (pickWork sample_table ''a5166002-89bb-4a3c-a34a-39b44d33c212''
            ''7c9e6679-7425-40de-944b-e07fc1f90ae7'') = Picked
   \<and> fst (pickWork sample_table ''a5166002-89bb-4a3c-a34a-39b44d33c212''
            ''7c9e6679-7425-40de-944b-e07fc1f90ae7'') = sample_picked_table
   \<and> sample_picked_row \<in> set sample_picked_table
   \<and> distinct (map (\<lambda>r. r ''weekly_task_id'') sample_picked_table)
   \<and> sample_picked_row ''pickedBy'' = VStr ''7c9e6679-7425-40de-944b-e07fc1f90ae7''
   \<and> pickWork sample_picked_table ''a5166002-89bb-4a3c-a34a-39b44d33c212''
        ''3f2504e0-4f89-41d3-9a0c-0305e82c3301'' = (sample_picked_table, Conflict)
   \<and> find (\<lambda>r. r ''weekly_task_id'' = VStr ''a5166002-89bb-4a3c-a34a-39b44d33c212'')
        (fst (pickWork sample_picked_table ''a5166002-89bb-4a3c-a34a-39b44d33c212''
               ''3f2504e0-4f89-41d3-9a0c-0305e82c3301'')) = Some sample_picked_row"
proof -
  have m1: "sample_row \<in> set sample_table" by (simp add: sample_table_def)
  have d1: "distinct (map (\<lambda>r. r ''weekly_task_id'') sample_table)"
    by (simp add: sample_table_def sample_table_ids)
  have m2: "sample_picked_row \<in> set sample_picked_table" by (simp add: sample_picked_table_def)
  have d2: "distinct (map (\<lambda>r. r ''weekly_task_id'') sample_picked_table)"
    by (simp add: sample_picked_table_def sample_table_ids)
  note free = sample_pickers(1)
  note taken = sample_pickers(2)
  from pickWork_compare_and_set[OF m1 d1 sample_table_ids(1),
      of "''7c9e6679-7425-40de-944b-e07fc1f90ae7''"] free
  have one: "snd (pickWork sample_table ''a5166002-89bb-4a3c-a34a-39b44d33c212''
            ''7c9e6679-7425-40de-944b-e07fc1f90ae7'') = Picked"
    by blast
  have taken': "sample_picked_row ''pickedBy'' \<noteq> VNull" by (simp add: taken)
  from pickWork_compare_and_set[OF m2 d2 sample_table_ids(2),
      of "''3f2504e0-4f89-41d3-9a0c-0305e82c3301''"] taken'
  have two: "pickWork sample_picked_table ''a5166002-89bb-4a3c-a34a-39b44d33c212''
        ''3f2504e0-4f89-41d3-9a0c-0305e82c3301'' = (sample_picked_table, Conflict)
      \<and> find (\<lambda>r. r ''weekly_task_id'' = VStr ''a5166002-89bb-4a3c-a34a-39b44d33c212'')
        (fst (pickWork sample_picked_table ''a5166002-89bb-4a3c-a34a-39b44d33c212''
               ''3f2504e0-4f89-41d3-9a0c-0305e82c3301'')) = Some sample_picked_row"
    by blast
  have next_table: "fst (pickWork sample_table ''a5166002-89bb-4a3c-a34a-39b44d33c212''
            ''7c9e6679-7425-40de-944b-e07fc1f90ae7'') = sample_picked_table"
    by (simp add: sample_pick)
  from m1 d1 free one next_table m2 d2 taken two show ?thesis by blast
qed

text \<open>
  C6. Deleting a work id that references no Work answers NotFound, status 404 and not
  200, and removes nothing.
\<close>

theorem deleteOne_missing_NotFound:
  assumes "works workId = None"
  shows "deleteOne works workId = (works, NotFound)
       \<and> status_code (snd (deleteOne works workId)) = 404
       \<and> status_code (snd (deleteOne works workId)) \<noteq> 200"
  using assms by (simp add: deleteOne_def)

theorem deleteOne_missing_NotFound_witness:
  "sample_works ''0b9f6c1e-7d2a-4e58-9c3b-5f1a2d4e6b70'' = None
   \<and> deleteOne sample_works ''0b9f6c1e-7d2a-4e58-9c3b-5f1a2d4e6b70'' = (sample_works, NotFound)
   \<and> status_code (snd (deleteOne sample_works ''0b9f6c1e-7d2a-4e58-9c3b-5f1a2d4e6b70'')) = 404"
proof -
  have absent: "sample_works ''0b9f6c1e-7d2a-4e58-9c3b-5f1a2d4e6b70'' = None"
    by (simp add: sample_works_def)
  from deleteOne_missing_NotFound[of sample_works "''0b9f6c1e-7d2a-4e58-9c3b-5f1a2d4e6b70''"] absent
  show ?thesis by blast
qed

text \<open>
  C8. Looking an existing work id up leaves the store as it is and answers with the
  stored record, so a second lookup right after the first answers with the same record.
\<close>

theorem findOne_twice_same:
  assumes "works workId = Some w"
  shows "fst (findOne works workId) = works
       \<and> snd (findOne works workId) = Ok w
       \<and> snd (findOne (fst (findOne works workId)) workId) = snd (findOne works workId)"
  using assms by (simp add: findOne_def)

theorem findOne_twice_same_witness:
  "sample_works ''a5166002-89bb-4a3c-a34a-39b44d33c212'' = Some ''Paint fence''
   \<and> snd (findOne sample_works ''a5166002-89bb-4a3c-a34a-39b44d33c212'') = Ok ''Paint fence''
   \<and> snd (findOne (fst (findOne sample_works ''a5166002-89bb-4a3c-a34a-39b44d33c212''))
            ''a5166002-89bb-4a3c-a34a-39b44d33c212'') = Ok ''Paint fence''"
proof -
  have present: "sample_works ''a5166002-89bb-4a3c-a34a-39b44d33c212'' = Some ''Paint fence''"
    by (simp add: sample_works_def)
  from findOne_twice_same[of sample_works "''a5166002-89bb-4a3c-a34a-39b44d33c212''" "''Paint fence''"]
    present
  show ?thesis by simp
qed

end
